theory Spec2Isabelle
  imports Main
begin

section \<open>The article scraper of news-terminal\<close>

text \<open>
  A shallow embedding of \<^verbatim>\<open>src/news_terminal/scraper.py\<close> (class \<^verbatim>\<open>ArticleScraper\<close>).
  The methods of the class are modelled one by one under their own names (a leading
  underscore is dropped, since an Isabelle name cannot start with one). The code of the
  repository is modelled as it is written; what it calls in \<^verbatim>\<open>requests\<close>,
  \<^verbatim>\<open>bs4\<close>, \<^verbatim>\<open>re\<close> and \<^verbatim>\<open>urllib\<close> is modelled as follows.

  \<^item> A Python \<^verbatim>\<open>str\<close> is a \<open>string\<close>, one \<open>char\<close> for one code point, so the model
    covers the code points below 256; \<open>length\<close> is Python's \<^verbatim>\<open>len\<close>.
  \<^item> The network, the two HTML tree builders and the functions \<^verbatim>\<open>quote\<close>,
    \<^verbatim>\<open>unquote\<close> and \<^verbatim>\<open>urlparse(...).netloc\<close> of \<^verbatim>\<open>urllib.parse\<close> are fields of an
    environment \<open>env\<close>: every theorem holds for all of them.
  \<^item> A parsed document is a tree of \<open>node\<close>s; \<^verbatim>\<open>select\<close>, \<^verbatim>\<open>find_all\<close>,
    \<^verbatim>\<open>get_text\<close> and \<^verbatim>\<open>decompose\<close> are functions on that tree.
  \<^item> A raised exception is a value \<open>Inl e\<close>; every \<^verbatim>\<open>try ... except Exception\<close> of
    the source is a \<open>py_try\<close>. Only exceptions derived from \<^verbatim>\<open>Exception\<close> are modelled.
  \<^item> The calls of \<^verbatim>\<open>session.get\<close> are recorded, in order, in a list of requests that
    every method takes and returns; the answer of the network may depend on the
    requests made before.
\<close>

subsection \<open>Strings\<close>

text \<open>\<^verbatim>\<open>str.isspace\<close>, which is also the class \<^verbatim>\<open>\s\<close> of a \<^verbatim>\<open>str\<close> pattern.\<close>

definition is_space :: "char \<Rightarrow> bool" where
  "is_space c =
     (let n = (of_char c :: nat)
      in (9 \<le> n \<and> n \<le> 13) \<or> (28 \<le> n \<and> n \<le> 32) \<or> n = 133 \<or> n = 160)"

text \<open>\<^verbatim>\<open>str.isalnum\<close>: letters, digits and the other numeric characters.\<close>

definition is_alnum :: "char \<Rightarrow> bool" where
  "is_alnum c =
     (let n = (of_char c :: nat)
      in (48 \<le> n \<and> n \<le> 57) \<or> (65 \<le> n \<and> n \<le> 90) \<or> (97 \<le> n \<and> n \<le> 122)
         \<or> n = 170 \<or> n = 178 \<or> n = 179 \<or> n = 181 \<or> n = 185 \<or> n = 186
         \<or> (188 \<le> n \<and> n \<le> 190) \<or> (192 \<le> n \<and> n \<le> 214)
         \<or> (216 \<le> n \<and> n \<le> 246) \<or> (248 \<le> n \<and> n \<le> 255))"

text \<open>The class \<^verbatim>\<open>\w\<close> of a \<^verbatim>\<open>str\<close> pattern: alphanumeric, or the underscore.\<close>

definition re_w :: "char \<Rightarrow> bool" where
  "re_w c = (is_alnum c \<or> c = CHR ''_'')"

definition re_s :: "char \<Rightarrow> bool" where
  "re_s c = is_space c"

text \<open>
  \<^verbatim>\<open>str.lower\<close>. The upper-case letters below 256 are 65..90, 192..214 and 216..222; the
  lower-case letter is 32 further, which sets bit 5 (clear in all of them).
\<close>

definition is_upper :: "char \<Rightarrow> bool" where
  "is_upper c =
     (let n = (of_char c :: nat)
      in (65 \<le> n \<and> n \<le> 90) \<or> (192 \<le> n \<and> n \<le> 214) \<or> (216 \<le> n \<and> n \<le> 222))"

definition lower_char :: "char \<Rightarrow> char" where
  "lower_char c =
     (if is_upper c
      then (case c of Char b0 b1 b2 b3 b4 b5 b6 b7 \<Rightarrow> Char b0 b1 b2 b3 b4 True b6 b7)
      else c)"

definition lower :: "string \<Rightarrow> string" where
  "lower s = map lower_char s"

text \<open>\<^verbatim>\<open>s.startswith(p)\<close> and \<^verbatim>\<open>p in s\<close>.\<close>

definition startswith :: "string \<Rightarrow> string \<Rightarrow> bool" where
  "startswith s p = (take (length p) s = p)"

fun py_in :: "string \<Rightarrow> string \<Rightarrow> bool" where
  "py_in p [] = (p = [])"
| "py_in p (c # cs) = (startswith (c # cs) p \<or> py_in p cs)"

text \<open>\<^verbatim>\<open>s.strip()\<close>, \<^verbatim>\<open>sep.join(xs)\<close> and the splitting of a string at white space.\<close>

definition strip :: "string \<Rightarrow> string" where
  "strip s = rev (dropWhile is_space (rev (dropWhile is_space s)))"

fun join :: "string \<Rightarrow> string list \<Rightarrow> string" where
  "join sep [] = []"
| "join sep [x] = x"
| "join sep (x # y # xs) = x @ sep @ join sep (y # xs)"

fun split_ws :: "string \<Rightarrow> string \<Rightarrow> string list" where
  "split_ws cur [] = (if cur = [] then [] else [cur])"
| "split_ws cur (c # cs) =
     (if is_space c then (if cur = [] then [] else [cur]) @ split_ws [] cs
      else split_ws (cur @ [c]) cs)"

text \<open>
  \<^verbatim>\<open>s.replace(old, new)\<close>: the occurrences of \<open>old\<close> are replaced from the left, without
  overlap; all of them, not only the first.
\<close>

fun replace :: "string \<Rightarrow> string \<Rightarrow> string \<Rightarrow> string" where
  "replace [] new s = new @ concat (map (\<lambda>c. c # new) s)"
| "replace (x # old) new [] = []"
| "replace (x # old) new (c # cs) =
     (if startswith (c # cs) (x # old)
      then new @ replace (x # old) new (drop (length old) cs)
      else c # replace (x # old) new cs)"

text \<open>
  \<^verbatim>\<open>re.sub(r'[^\w\s]', '', title)\<close>: every character that is neither in \<^verbatim>\<open>\w\<close> nor in
  \<^verbatim>\<open>\s\<close> is replaced by the empty string.
\<close>

definition re_sub_class :: "(char \<Rightarrow> bool) \<Rightarrow> string \<Rightarrow> string \<Rightarrow> string" where
  "re_sub_class cls repl s = concat (map (\<lambda>c. if cls c then repl else [c]) s)"

text \<open>
  \<^verbatim>\<open>re.sub(r'\n{3,}', '\n\n', text)\<close>: every maximal run of three or more newlines
  becomes two newlines. \<open>k\<close> counts the newlines of the run being read.
\<close>

definition emit_newlines :: "nat \<Rightarrow> string" where
  "emit_newlines k = replicate (if 3 \<le> k then 2 else k) (CHR 0x0A)"

fun re_sub_newlines :: "nat \<Rightarrow> string \<Rightarrow> string" where
  "re_sub_newlines k [] = emit_newlines k"
| "re_sub_newlines k (c # cs) =
     (if c = CHR 0x0A then re_sub_newlines (Suc k) cs
      else emit_newlines k @ c # re_sub_newlines 0 cs)"

text \<open>
  \<^verbatim>\<open>re.search(r'uddg=([^&]+)', href)\<close>: the leftmost place where \<^verbatim>\<open>uddg=\<close> is followed by
  at least one character other than \<^verbatim>\<open>&\<close>; group 1 is the longest run of such characters.
  \<open>None\<close> is no match.
\<close>

fun re_search_uddg :: "string \<Rightarrow> string option" where
  "re_search_uddg [] = None"
| "re_search_uddg (c # cs) =
     (let group1 = takeWhile (\<lambda>x. x \<noteq> CHR ''&'') (drop 5 (c # cs))
      in if startswith (c # cs) ''uddg='' \<and> group1 \<noteq> [] then Some group1
         else re_search_uddg cs)"

subsection \<open>Exceptions, requests and the environment\<close>

datatype exn =
  RequestException | HTTPError | FeatureNotFound | ParserError | ValueError | UnicodeError

text \<open>A call \<^verbatim>\<open>session.get(url, timeout=t)\<close> is recorded as \<open>(url, t)\<close>.\<close>

type_synonym request = "string \<times> nat"

record response =
  status_code :: nat
  resp_text :: string

text \<open>
  A parsed document: a string of text, a string that is no text (a comment, a doctype),
  or an element with its name, its attributes and its children. Both tree builders give
  names in lower case, and an attribute once.
\<close>

datatype node =
  Text string
| Comment string
| Element string "(string \<times> string) list" "node list"

record env =
  session_get :: "request list \<Rightarrow> string \<Rightarrow> nat \<Rightarrow> exn + response"
  lxml :: "string \<Rightarrow> exn + node"
  html_parser :: "string \<Rightarrow> exn + node"
  quote :: "string \<Rightarrow> exn + string"
  unquote :: "string \<Rightarrow> string"
  urlparse_netloc :: "string \<Rightarrow> exn + string"

text \<open>
  A method takes the requests made so far and returns its value, or the exception it
  raises, with the requests made until then.
\<close>

type_synonym 'a py = "request list \<Rightarrow> (exn + 'a) \<times> request list"

definition py_return :: "'a \<Rightarrow> 'a py" where
  "py_return x = (\<lambda>h. (Inr x, h))"

definition py_lift :: "exn + 'a \<Rightarrow> 'a py" where
  "py_lift r = (\<lambda>h. (r, h))"

definition py_bind :: "'a py \<Rightarrow> ('a \<Rightarrow> 'b py) \<Rightarrow> 'b py" where
  "py_bind m f = (\<lambda>h. case m h of (Inl e, h') \<Rightarrow> (Inl e, h') | (Inr x, h') \<Rightarrow> f x h')"

text \<open>\<^verbatim>\<open>try: m  except Exception: handler\<close>.\<close>

definition py_try :: "'a py \<Rightarrow> 'a py \<Rightarrow> 'a py" where
  "py_try m handler = (\<lambda>h. case m h of (Inl e, h') \<Rightarrow> handler h' | (Inr x, h') \<Rightarrow> (Inr x, h'))"

definition get :: "env \<Rightarrow> string \<Rightarrow> nat \<Rightarrow> response py" where
  "get E url timeout = (\<lambda>h. (session_get E h url timeout, h @ [(url, timeout)]))"

text \<open>\<^verbatim>\<open>response.raise_for_status()\<close> raises for the status codes 400 to 599.\<close>

definition raise_for_status :: "response \<Rightarrow> exn + unit" where
  "raise_for_status r =
     (if 400 \<le> status_code r \<and> status_code r < 600 then Inl HTTPError else Inr ())"

subsection \<open>The document tree\<close>

text \<open>
  The selectors of the source, as BeautifulSoup's \<^verbatim>\<open>select\<close> reads them: \<^verbatim>\<open>article\<close> is
  \<open>Tag ''article''\<close>, \<^verbatim>\<open>.ad\<close> is \<open>Class ''ad''\<close>, \<^verbatim>\<open>[class*="popup"]\<close> is
  \<open>AttrContains ''class'' ''popup''\<close>, \<^verbatim>\<open>[itemprop="articleBody"]\<close> is
  \<open>AttrEquals ''itemprop'' ''articleBody''\<close> and \<^verbatim>\<open>a.result__a\<close> is
  \<open>Both (Tag ''a'') (Class ''result__a'')\<close>.
\<close>

datatype selector =
  Tag string
| Class string
| AttrContains string string
| AttrEquals string string
| Both selector selector

text \<open>
  The value of an attribute as a selector sees it: \<^verbatim>\<open>class\<close> is kept as the list of its
  white-space separated names, joined by one space when it is matched as a string.
\<close>

definition attr_value :: "string \<Rightarrow> string \<Rightarrow> string" where
  "attr_value k v = (if k = ''class'' then join '' '' (split_ws [] v) else v)"

fun matches :: "selector \<Rightarrow> node \<Rightarrow> bool" where
  "matches sel (Text s) = False"
| "matches sel (Comment s) = False"
| "matches (Tag t) (Element n a cs) = (n = t)"
| "matches (Class c) (Element n a cs) =
     (case map_of a ''class'' of None \<Rightarrow> False | Some v \<Rightarrow> c \<in> set (split_ws [] v))"
| "matches (AttrContains k x) (Element n a cs) =
     (case map_of a k of None \<Rightarrow> False | Some v \<Rightarrow> py_in x (attr_value k v))"
| "matches (AttrEquals k x) (Element n a cs) =
     (case map_of a k of None \<Rightarrow> False | Some v \<Rightarrow> attr_value k v = x)"
| "matches (Both s1 s2) (Element n a cs) =
     (matches s1 (Element n a cs) \<and> matches s2 (Element n a cs))"

text \<open>The nodes below a node, in document order.\<close>

fun descendants :: "node \<Rightarrow> node list" where
  "descendants (Element n a cs) = concat (map (\<lambda>c. c # descendants c) cs)"
| "descendants (Text s) = []"
| "descendants (Comment s) = []"

text \<open>\<^verbatim>\<open>soup.select(selector)\<close>: the elements below \<open>soup\<close> that match, in document order.\<close>

definition select :: "selector \<Rightarrow> node \<Rightarrow> node list" where
  "select sel soup = filter (matches sel) (descendants soup)"

text \<open>
  \<^verbatim>\<open>for element in soup.select(selector): element.decompose()\<close>: every element below
  \<open>soup\<close> that matches is taken out of the tree, with all that is below it.
\<close>

fun decompose_selected :: "selector \<Rightarrow> node \<Rightarrow> node" where
  "decompose_selected sel (Element n a cs) =
     Element n a (map (decompose_selected sel) (filter (\<lambda>c. \<not> matches sel c) cs))"
| "decompose_selected sel (Text s) = Text s"
| "decompose_selected sel (Comment s) = Comment s"

text \<open>\<^verbatim>\<open>soup.body\<close>: the first element named \<^verbatim>\<open>body\<close>, or \<open>None\<close>.\<close>

definition body :: "node \<Rightarrow> node option" where
  "body soup = List.find (matches (Tag ''body'')) (descendants soup)"

text \<open>\<^verbatim>\<open>element.find_all(names)\<close>: the elements below with one of the names.\<close>

definition find_all :: "string list \<Rightarrow> node \<Rightarrow> node list" where
  "find_all names el = filter (\<lambda>d. \<exists>t \<in> set names. matches (Tag t) d) (descendants el)"

text \<open>
  The strings of text below a node, in document order, and the ways the source reads
  them: \<^verbatim>\<open>get_text()\<close>, and \<^verbatim>\<open>get_text(separator=sep, strip=True)\<close>, which strips
  every string and leaves out the ones that become empty. Every string of text below the
  node counts, whatever element holds it. BeautifulSoup sets apart the strings inside
  \<^verbatim>\<open>rt\<close>, \<^verbatim>\<open>rp\<close>, \<^verbatim>\<open>template\<close>, \<^verbatim>\<open>script\<close> and \<^verbatim>\<open>style\<close> elements and reads them
  only when it is asked at such an element itself; the model does not tell them apart, so
  on a document with \<^verbatim>\<open>rt\<close>, \<^verbatim>\<open>rp\<close> or \<^verbatim>\<open>template\<close> elements its text lengths can differ
  from the library's (\<^verbatim>\<open>script\<close> and \<^verbatim>\<open>style\<close> are removed before any text is read).
\<close>

definition all_strings :: "node \<Rightarrow> string list" where
  "all_strings el = concat (map (\<lambda>d. case d of Text s \<Rightarrow> [s] | _ \<Rightarrow> []) (descendants el))"

definition get_text :: "node \<Rightarrow> string" where
  "get_text el = concat (all_strings el)"

definition get_text_strip :: "string \<Rightarrow> node \<Rightarrow> string" where
  "get_text_strip sep el = join sep (filter (\<lambda>s. s \<noteq> []) (map strip (all_strings el)))"

text \<open>
  \<^verbatim>\<open>max(elements, key=...)\<close>: the first element whose key no other exceeds; on the empty
  list a \<^verbatim>\<open>ValueError\<close>.
\<close>

fun py_max :: "('a \<Rightarrow> nat) \<Rightarrow> 'a list \<Rightarrow> exn + 'a" where
  "py_max key [] = Inl ValueError"
| "py_max key (x # xs) = Inr (foldl (\<lambda>best y. if key best < key y then y else best) x xs)"

subsection \<open>The class ArticleScraper\<close>

definition CONTENT_SELECTORS :: "selector list" where
  "CONTENT_SELECTORS =
     [Tag ''article'',
      AttrContains ''class'' ''article-body'',
      AttrContains ''class'' ''article-content'',
      AttrContains ''class'' ''post-content'',
      AttrContains ''class'' ''entry-content'',
      AttrContains ''class'' ''story-body'',
      AttrContains ''class'' ''content-body'',
      AttrEquals ''itemprop'' ''articleBody'',
      Class ''article__body'',
      Class ''article-text'',
      Class ''story-content'',
      Tag ''main'']"

definition REMOVE_SELECTORS :: "selector list" where
  "REMOVE_SELECTORS =
     [Tag ''script'', Tag ''style'', Tag ''nav'', Tag ''header'', Tag ''footer'', Tag ''aside'',
      Class ''advertisement'', Class ''ad'', Class ''ads'', Class ''social-share'',
      Class ''related-articles'', Class ''comments'', Class ''sidebar'',
      AttrContains ''class'' ''newsletter'', AttrContains ''class'' ''subscribe'',
      AttrContains ''class'' ''popup'', AttrContains ''class'' ''modal'']"

text \<open>\<^verbatim>\<open>_extract_text\<close>.\<close>

definition extract_text :: "node \<Rightarrow> string" where
  "extract_text element =
     (let paragraphs = find_all [''p'', ''h2'', ''h3'', ''blockquote''] element
      in if paragraphs \<noteq> []
         then join [CHR 0x0A, CHR 0x0A]
                (filter (\<lambda>text. text \<noteq> [] \<and> 20 < length text)
                   (map (get_text_strip []) paragraphs))
         else re_sub_newlines 0 (get_text_strip [CHR 0x0A] element))"

text \<open>\<^verbatim>\<open>_scrape_url\<close>, lines 96 to 99: the loop that removes the unwanted elements.\<close>

fun remove_unwanted :: "selector list \<Rightarrow> node \<Rightarrow> node" where
  "remove_unwanted [] soup = soup"
| "remove_unwanted (sel # sels) soup = remove_unwanted sels (decompose_selected sel soup)"

text \<open>
  \<^verbatim>\<open>_scrape_url\<close>, lines 102 to 107: the loop over the content selectors. \<open>None\<close> is the
  \<^verbatim>\<open>content = None\<close> that no selector has replaced.
\<close>

fun find_content :: "selector list \<Rightarrow> node \<Rightarrow> exn + node option" where
  "find_content [] soup = Inr None"
| "find_content (sel # sels) soup =
     (let elements = select sel soup
      in if elements \<noteq> []
         then (case py_max (\<lambda>x. length (get_text x)) elements of
                 Inl e \<Rightarrow> Inl e
               | Inr content \<Rightarrow> Inr (Some content))
         else find_content sels soup)"

text \<open>
  \<^verbatim>\<open>_scrape_url\<close>, lines 101 to 110. An element is true whatever it holds, so
  \<^verbatim>\<open>not content\<close> holds for \<^verbatim>\<open>None\<close> only.
\<close>

definition main_content :: "node \<Rightarrow> exn + node" where
  "main_content soup =
     (case find_content CONTENT_SELECTORS soup of
        Inl e \<Rightarrow> Inl e
      | Inr (Some content) \<Rightarrow> Inr content
      | Inr None \<Rightarrow> (case body soup of Some b \<Rightarrow> Inr b | None \<Rightarrow> Inr soup))"

text \<open>\<^verbatim>\<open>_scrape_url\<close>, lines 96 to 117: from the parsed document to the result.\<close>

definition scrape_soup :: "node \<Rightarrow> exn + string option" where
  "scrape_soup soup =
     (case main_content (remove_unwanted REMOVE_SELECTORS soup) of
        Inl e \<Rightarrow> Inl e
      | Inr content \<Rightarrow>
          (let text = extract_text content
           in if length text < 100 then Inr None else Inr (Some text)))"

text \<open>\<^verbatim>\<open>_scrape_url\<close>, lines 90 to 94: lxml first, then html.parser.\<close>

definition make_soup :: "env \<Rightarrow> string \<Rightarrow> node py" where
  "make_soup E markup = py_try (py_lift (lxml E markup)) (py_lift (html_parser E markup))"

text \<open>\<^verbatim>\<open>_scrape_url\<close>.\<close>

definition scrape_url :: "env \<Rightarrow> string \<Rightarrow> string option py" where
  "scrape_url E url =
     (if url = [] then py_return None
      else py_try
             (py_bind (get E url 15) (\<lambda>response.
              py_bind (py_lift (raise_for_status response)) (\<lambda>_.
              py_bind (make_soup E (resp_text response)) (\<lambda>soup.
              py_lift (scrape_soup soup)))))
             (py_return None))"

text \<open>\<^verbatim>\<open>_is_news_url\<close>.\<close>

definition skip_patterns :: "string list" where
  "skip_patterns =
     [''youtube.com'', ''twitter.com'', ''facebook.com'', ''instagram.com'',
      ''reddit.com'', ''wikipedia.org'', ''amazon.com'', ''ebay.com'',
      ''/search'', ''/category'', ''/tag/'', ''/author/'']"

definition is_news_url :: "string \<Rightarrow> bool" where
  "is_news_url url = (\<not> (\<exists>pattern \<in> set skip_patterns. py_in pattern (lower url)))"

text \<open>\<^verbatim>\<open>_get_domain\<close>.\<close>

definition get_domain :: "env \<Rightarrow> string \<Rightarrow> string py" where
  "get_domain E url =
     py_try
       (py_bind (py_lift (urlparse_netloc E url)) (\<lambda>netloc.
        py_return (replace ''www.'' [] netloc)))
       (py_return ''unknown'')"

text \<open>
  \<^verbatim>\<open>_search_alternative_sources\<close>, line 129, and the string that line 130 encodes.
\<close>

definition search_query :: "string \<Rightarrow> string" where
  "search_query title = take 100 (re_sub_class (\<lambda>c. \<not> (re_w c \<or> re_s c)) [] title)"

definition full_query :: "string \<Rightarrow> string" where
  "full_query title = search_query title @ '' news''"

text \<open>\<^verbatim>\<open>link.get('href', '')\<close>.\<close>

fun get_href :: "node \<Rightarrow> string" where
  "get_href (Element n a cs) = (case map_of a ''href'' of Some v \<Rightarrow> v | None \<Rightarrow> [])"
| "get_href (Text s) = []"
| "get_href (Comment s) = []"

text \<open>
  \<^verbatim>\<open>_search_alternative_sources\<close>, lines 143 to 153: what one link adds to \<^verbatim>\<open>urls\<close>.
\<close>

definition link_urls :: "env \<Rightarrow> node \<Rightarrow> string list" where
  "link_urls E link =
     (let href = get_href link
      in if py_in ''uddg='' href
         then (case re_search_uddg href of
                 Some group1 \<Rightarrow>
                   (let actual_url = unquote E group1
                    in if is_news_url actual_url then [actual_url] else [])
               | None \<Rightarrow> [])
         else if startswith href ''http''
         then (if is_news_url href then [href] else [])
         else [])"

text \<open>
  \<^verbatim>\<open>_search_alternative_sources\<close>, lines 142 to 156: the loop over the links, left as
  soon as \<^verbatim>\<open>urls\<close> has five entries.
\<close>

fun collect_urls :: "env \<Rightarrow> node list \<Rightarrow> string list \<Rightarrow> string list" where
  "collect_urls E [] urls = urls"
| "collect_urls E (link # links) urls =
     (let urls' = urls @ link_urls E link
      in if 5 \<le> length urls' then urls' else collect_urls E links urls')"

definition search_url :: "string \<Rightarrow> string" where
  "search_url encoded_query = ''https://html.duckduckgo.com/html/?q='' @ encoded_query"

text \<open>\<^verbatim>\<open>_search_alternative_sources\<close>.\<close>

definition search_alternative_sources :: "env \<Rightarrow> string \<Rightarrow> string list py" where
  "search_alternative_sources E title =
     py_try
       (py_bind (py_lift (quote E (full_query title))) (\<lambda>encoded_query.
        py_bind (get E (search_url encoded_query) 10) (\<lambda>response.
        py_bind (py_lift (raise_for_status response)) (\<lambda>_.
        py_bind (py_lift (lxml E (resp_text response))) (\<lambda>soup.
        py_return (collect_urls E (select (Both (Tag ''a'') (Class ''result__a'')) soup) []))))))
       (py_return [])"

text \<open>
  \<^verbatim>\<open>fetch_article\<close>, lines 73 to 77: the loop over the alternatives. \<open>Some r\<close> is the
  \<^verbatim>\<open>return\<close> inside the loop, \<open>None\<close> the end of the loop.
\<close>

definition truthy :: "string option \<Rightarrow> bool" where
  "truthy content = (case content of None \<Rightarrow> False | Some s \<Rightarrow> s \<noteq> [])"

fun try_alternatives :: "env \<Rightarrow> string \<Rightarrow> string list \<Rightarrow> (string option \<times> string) option py" where
  "try_alternatives E url [] = py_return None"
| "try_alternatives E url (alt_url # alt_urls) =
     (if alt_url \<noteq> url
      then py_bind (scrape_url E alt_url) (\<lambda>content.
             if truthy content
             then py_bind (get_domain E alt_url) (\<lambda>domain.
                    py_return (Some (content, ''alternative: '' @ domain)))
             else try_alternatives E url alt_urls)
      else try_alternatives E url alt_urls)"

text \<open>\<^verbatim>\<open>fetch_article\<close>. The title is \<open>None\<close> when the caller gives none.\<close>

definition fetch_article :: "env \<Rightarrow> string \<Rightarrow> string option \<Rightarrow> (string option \<times> string) py" where
  "fetch_article E url title =
     py_bind (scrape_url E url) (\<lambda>content.
       if truthy content then py_return (content, ''original'')
       else if truthy title
       then (case title of
               Some t \<Rightarrow>
                 py_bind (search_alternative_sources E t) (\<lambda>alt_urls.
                 py_bind (try_alternatives E url alt_urls) (\<lambda>found.
                   case found of
                     Some result \<Rightarrow> py_return result
                   | None \<Rightarrow> py_return (None, ''failed'')))
             | None \<Rightarrow> py_return (None, ''failed''))
       else py_return (None, ''failed''))"

subsection \<open>The words of the specification\<close>

text \<open>
  Three notions that the specification uses and the source does not define, written
  after the specification's words: the query made of the title's alphanumeric and
  white-space characters only, an absolute HTTP(S) URL, and a host without a leading
  \<^verbatim>\<open>www.\<close>.
\<close>

definition spec_query :: "string \<Rightarrow> string" where
  "spec_query title = take 100 (filter (\<lambda>c. is_alnum c \<or> is_space c) title) @ '' news''"


definition strip_leading_www :: "string \<Rightarrow> string" where
  "strip_leading_www host = (if startswith host ''www.'' then drop 4 host else host)"

subsection \<open>An example environment\<close>

text \<open>
  A small world to run the methods in: the article at \<^verbatim>\<open>https://example.org/a\<close> answers
  404, the search for its title answers a page with four result links, and the page at
  \<^verbatim>\<open>https://awww.example.com/story\<close> holds the story. The tree builders know these
  two pages only; \<open>example_unquote\<close> decodes the two escapes that occur in them.
\<close>

definition story_text :: string where
  "story_text =
     ''The city council voted on Tuesday evening to approve the new budget for public transport and road repairs.''"

definition story_soup :: node where
  "story_soup =
     Element ''[document]'' []
       [Element ''html'' []
          [Element ''body'' []
             [Element ''nav'' [] [Text ''Home''],
              Element ''article'' [] [Element ''p'' [] [Text ''Too short'']],
              Element ''article'' []
                [Element ''p'' [] [Text story_text],
                 Element ''p'' [(''class'', ''more'')] [Text '' Read more '']],
              Element ''div'' [(''class'', ''box subscribe-box'')] [Text ''Subscribe now'']]]]"

definition results_soup :: node where
  "results_soup =
     Element ''[document]'' []
       [Element ''html'' []
          [Element ''body'' []
             [Element ''a''
                [(''class'', ''result__a''), (''href'', ''https://www.youtube.com/watch'')]
                [Text ''Video''],
              Element ''a''
                [(''class'', ''result__a''), (''href'', ''https://example.org/a'')]
                [Text ''The article''],
              Element ''a''
                [(''class'', ''result__a''),
                 (''href'', ''//duckduckgo.com/l/?uddg=https%3A%2F%2Fawww.example.com%2Fstory&rut=1'')]
                [Text ''The story''],
              Element ''a'' [(''class'', ''result__snippet''), (''href'', ''https://example.net/'')]
                [Text ''A snippet'']]]]"

fun example_unquote :: "string \<Rightarrow> string" where
  "example_unquote (a # b # c # cs) =
     (if [a, b, c] = ''%3A'' then CHR '':'' # example_unquote cs
      else if [a, b, c] = ''%2F'' then CHR ''/'' # example_unquote cs
      else a # example_unquote (b # c # cs))"
| "example_unquote cs = cs"

definition example_quote :: "string \<Rightarrow> exn + string" where
  "example_quote s = Inr (concat (map (\<lambda>c. if c = CHR '' '' then ''%20'' else [c]) s))"

definition example_netloc :: "string \<Rightarrow> exn + string" where
  "example_netloc url =
     (if startswith url ''https://'' then Inr (takeWhile (\<lambda>c. c \<noteq> CHR ''/'') (drop 8 url))
      else Inl ValueError)"

definition example_get :: "request list \<Rightarrow> string \<Rightarrow> nat \<Rightarrow> exn + response" where
  "example_get h url timeout =
     (if url = ''https://html.duckduckgo.com/html/?q=Budget%20vote%20news''
      then Inr \<lparr>status_code = 200, resp_text = ''results page''\<rparr>
      else if url = ''https://awww.example.com/story''
      then Inr \<lparr>status_code = 200, resp_text = ''story page''\<rparr>
      else if url = ''https://example.org/a''
      then Inr \<lparr>status_code = 404, resp_text = []\<rparr>
      else Inl RequestException)"

definition example_lxml :: "string \<Rightarrow> exn + node" where
  "example_lxml markup =
     (if markup = ''results page'' then Inr results_soup
      else if markup = ''story page'' then Inr story_soup
      else Inl ParserError)"

definition example_env :: env where
  "example_env =
     \<lparr>session_get = example_get,
      lxml = example_lxml,
      html_parser = (\<lambda>markup. Inl ParserError),
      quote = example_quote,
      unquote = example_unquote,
      urlparse_netloc = example_netloc\<rparr>"

text \<open>
  A mirror of the story under another address, in a world where \<^verbatim>\<open>quote\<close> and
  \<^verbatim>\<open>urlparse\<close> raise.
\<close>

definition mirror_env :: env where
  "mirror_env =
     \<lparr>session_get =
        (\<lambda>h url timeout. if url = ''http://mirror.example/s''
                          then Inr \<lparr>status_code = 203, resp_text = ''story page''\<rparr>
                          else Inl RequestException),
      lxml = example_lxml,
      html_parser = (\<lambda>markup. Inl ParserError),
      quote = (\<lambda>s. Inl UnicodeError),
      unquote = (\<lambda>s. s),
      urlparse_netloc = (\<lambda>s. Inl ValueError)\<rparr>"

text \<open>A document with two articles whose texts have the same length.\<close>

definition twin_soup :: node where
  "twin_soup =
     Element ''[document]'' []
       [Element ''article'' [] [Text ''ab''],
        Element ''article'' [] [Text ''cd'']]"




definition plain_link :: node where
  "plain_link = Element ''a'' [(''class'', ''result__a''), (''href'', ''https://example.net/n'')] []"

text \<open>The example world with a network that answers every request alike.\<close>

definition canned_env :: "nat \<Rightarrow> string \<Rightarrow> env" where
  "canned_env status markup =
     example_env\<lparr>session_get :=
       (\<lambda>h url timeout. Inr \<lparr>status_code = status, resp_text = markup\<rparr>)\<rparr>"

section \<open>Properties\<close>

subsection \<open>Evaluation\<close>

lemmas char_defs =
  is_space_def is_alnum_def re_w_def re_s_def is_upper_def lower_char_def lower_def

lemmas py_defs =
  py_return_def py_lift_def py_bind_def py_try_def get_def raise_for_status_def

lemmas tree_defs =
  attr_value_def select_def body_def find_all_def all_strings_def get_text_def
  get_text_strip_def strip_def startswith_def

lemmas scraper_defs =
  CONTENT_SELECTORS_def REMOVE_SELECTORS_def extract_text_def main_content_def
  scrape_soup_def make_soup_def scrape_url_def skip_patterns_def is_news_url_def
  get_domain_def search_query_def full_query_def re_sub_class_def link_urls_def
  search_url_def search_alternative_sources_def truthy_def fetch_article_def
  emit_newlines_def

lemmas example_defs =
  story_soup_def results_soup_def example_quote_def example_netloc_def example_get_def
  example_lxml_def example_env_def mirror_env_def

subsection \<open>Exceptions never leave the methods\<close>

lemma fst_py_bind:
  "fst (py_bind m f h) = (case fst (m h) of Inl e \<Rightarrow> Inl e | Inr x \<Rightarrow> fst (f x (snd (m h))))"
  by (simp add: py_bind_def split: prod.splits sum.splits)

lemma snd_py_bind:
  "snd (py_bind m f h) = (case fst (m h) of Inl e \<Rightarrow> snd (m h) | Inr x \<Rightarrow> snd (f x (snd (m h))))"
  by (simp add: py_bind_def split: prod.splits sum.splits)

lemma py_try_returns:
  assumes "\<And>h'. \<exists>x. fst (handler h') = Inr x"
  shows "\<exists>x. fst (py_try m handler h) = Inr x"
  using assms by (auto simp: py_try_def split: prod.splits sum.splits)

lemma scrape_url_returns: "\<exists>content. fst (scrape_url E url h) = Inr content"
  unfolding scrape_url_def
  by (auto simp: py_return_def intro!: py_try_returns)

lemma search_alternative_sources_returns:
  "\<exists>urls. fst (search_alternative_sources E title h) = Inr urls"
  unfolding search_alternative_sources_def
  by (auto simp: py_return_def intro!: py_try_returns)

lemma get_domain_returns: "\<exists>domain. fst (get_domain E url h) = Inr domain"
  unfolding get_domain_def
  by (auto simp: py_return_def intro!: py_try_returns)

lemma truthy_Some: "truthy content \<Longrightarrow> \<exists>s. content = Some s \<and> s \<noteq> []"
  by (cases content) (simp_all add: truthy_def)

lemma try_alternatives_returns:
  "\<exists>found. fst (try_alternatives E url alt_urls h) = Inr found \<and>
     (found = None \<or> (\<exists>text domain. found = Some (Some text, ''alternative: '' @ domain)))"
proof (induction alt_urls arbitrary: h)
  case Nil
  show ?case by (simp add: py_return_def)
next
  case (Cons alt_url alt_urls)
  show ?case
  proof (cases "alt_url = url")
    case True
    with Cons.IH [of h] show ?thesis by simp
  next
    case False
    obtain content where c: "fst (scrape_url E alt_url h) = Inr content"
      using scrape_url_returns by blast
    show ?thesis
    proof (cases "truthy content")
      case True
      then obtain s where "content = Some s" using truthy_Some by blast
      moreover obtain domain where
        "fst (get_domain E alt_url (snd (scrape_url E alt_url h))) = Inr domain"
        using get_domain_returns by blast
      ultimately show ?thesis using \<open>alt_url \<noteq> url\<close> c True
        by (simp add: fst_py_bind py_return_def)
    next
      case False
      with \<open>alt_url \<noteq> url\<close> c Cons.IH [of "snd (scrape_url E alt_url h)"] show ?thesis
        by (simp add: fst_py_bind)
    qed
  qed
qed

text \<open>
  Claim C1. Whatever the address, the title, the network and the tree builders are,
  \<^verbatim>\<open>fetch_article\<close> raises no exception and returns a pair: a text with the label
  \<^verbatim>\<open>original\<close>, a text with a label \<^verbatim>\<open>alternative: \<close> followed by a domain, or no text
  with the label \<^verbatim>\<open>failed\<close>.
\<close>

theorem fetch_article_never_raises:
  "\<exists>content label. fst (fetch_article E url title h) = Inr (content, label) \<and>
     ((\<exists>text. content = Some text \<and> label = ''original'') \<or>
      (\<exists>text domain. content = Some text \<and> label = ''alternative: '' @ domain) \<or>
      (content = None \<and> label = ''failed''))"
proof -
  obtain content where c: "fst (scrape_url E url h) = Inr content"
    using scrape_url_returns by blast
  show ?thesis
  proof (cases "truthy content")
    case True
    then obtain s where "content = Some s" using truthy_Some by blast
    with True c show ?thesis
      by (simp add: fetch_article_def fst_py_bind py_return_def)
  next
    case False
    show ?thesis
    proof (cases "truthy title")
      case False
      with \<open>\<not> truthy content\<close> c show ?thesis
        by (simp add: fetch_article_def fst_py_bind py_return_def)
    next
      case True
      then obtain t where t: "title = Some t" using truthy_Some by blast
      let ?h1 = "snd (scrape_url E url h)"
      obtain alt_urls where a: "fst (search_alternative_sources E t ?h1) = Inr alt_urls"
        using search_alternative_sources_returns by blast
      let ?h2 = "snd (search_alternative_sources E t ?h1)"
      obtain found where f: "fst (try_alternatives E url alt_urls ?h2) = Inr found"
        and f': "found = None \<or> (\<exists>text domain. found = Some (Some text, ''alternative: '' @ domain))"
        using try_alternatives_returns by blast
      from f' show ?thesis
        using \<open>\<not> truthy content\<close> True c t a f
        by (auto simp: fetch_article_def fst_py_bind py_return_def)
    qed
  qed
qed

theorem fetch_article_never_raises_witness:
  "fst (fetch_article example_env ''no such scheme'' None []) = Inr (None, ''failed'')"
  using fetch_article_never_raises [of example_env "''no such scheme''" None "[]"]
  by (simp add: py_defs scraper_defs example_defs)

subsection \<open>The example environment, evaluated\<close>

lemma story_length: "length story_text = 106"
  by (simp add: story_text_def)

lemma scrape_story_soup: "scrape_soup story_soup = Inr (Some story_text)"
  by (simp add: char_defs tree_defs scraper_defs example_defs story_text_def)

lemma scrape_url_story:
  "scrape_url example_env ''https://awww.example.com/story'' h =
     (Inr (Some story_text), h @ [(''https://awww.example.com/story'', 15)])"
  by (simp add: scrape_url_def make_soup_def py_defs example_env_def example_get_def
      example_lxml_def scrape_story_soup)

lemma scrape_url_article:
  "scrape_url example_env ''https://example.org/a'' h =
     (Inr None, h @ [(''https://example.org/a'', 15)])"
  by (simp add: scrape_url_def make_soup_def py_defs example_env_def example_get_def)

lemma get_domain_story:
  "get_domain example_env ''https://awww.example.com/story'' h = (Inr ''aexample.com'', h)"
  by (simp add: get_domain_def py_defs example_env_def example_netloc_def startswith_def)

lemma search_budget_vote:
  "search_alternative_sources example_env ''Budget vote!'' h =
     (Inr [''https://example.org/a'', ''https://awww.example.com/story''],
      h @ [(''https://html.duckduckgo.com/html/?q=Budget%20vote%20news'', 10)])"
  by (simp add: char_defs py_defs tree_defs scraper_defs example_defs)

subsection \<open>The floor of 100 characters\<close>

lemma scrape_soup_length: "scrape_soup soup = Inr (Some s) \<Longrightarrow> 100 \<le> length s"
  by (auto simp: scrape_soup_def Let_def split: sum.splits if_splits)

lemma scrape_url_length:
  assumes "fst (scrape_url E url h) = Inr (Some s)"
  shows "100 \<le> length s"
  using assms
  by (auto simp: scrape_url_def py_defs make_soup_def split: if_splits prod.splits sum.splits
      dest: scrape_soup_length)

lemma try_alternatives_length:
  "fst (try_alternatives E url alt_urls h) = Inr (Some (Some s, label)) \<Longrightarrow> 100 \<le> length s"
proof (induction alt_urls arbitrary: h)
  case Nil
  then show ?case by (simp add: py_return_def)
next
  case (Cons alt_url alt_urls)
  show ?case
  proof (cases "alt_url = url")
    case True
    with Cons show ?thesis by simp
  next
    case False
    obtain content where c: "fst (scrape_url E alt_url h) = Inr content"
      using scrape_url_returns by blast
    show ?thesis
    proof (cases "truthy content")
      case True
      obtain domain where
        "fst (get_domain E alt_url (snd (scrape_url E alt_url h))) = Inr domain"
        using get_domain_returns by blast
      with Cons.prems \<open>alt_url \<noteq> url\<close> c True have "content = Some s"
        by (simp add: fst_py_bind py_return_def)
      with c show ?thesis using scrape_url_length by blast
    next
      case False
      with Cons.prems \<open>alt_url \<noteq> url\<close> c
      have "fst (try_alternatives E url alt_urls (snd (scrape_url E alt_url h))) = Inr (Some (Some s, label))"
        by (simp add: fst_py_bind)
      then show ?thesis by (rule Cons.IH)
    qed
  qed
qed

lemma fetch_article_length:
  assumes "fst (fetch_article E url title h) = Inr (Some s, label)"
  shows "100 \<le> length s"
proof -
  obtain content where c: "fst (scrape_url E url h) = Inr content"
    using scrape_url_returns by blast
  show ?thesis
  proof (cases "truthy content")
    case True
    with assms c have "content = Some s"
      by (simp add: fetch_article_def fst_py_bind py_return_def)
    with c show ?thesis using scrape_url_length by blast
  next
    case False
    show ?thesis
    proof (cases "truthy title")
      case False
      with \<open>\<not> truthy content\<close> c assms show ?thesis
        by (simp add: fetch_article_def fst_py_bind py_return_def)
    next
      case True
      then obtain t where t: "title = Some t" using truthy_Some by blast
      let ?h1 = "snd (scrape_url E url h)"
      obtain alt_urls where a: "fst (search_alternative_sources E t ?h1) = Inr alt_urls"
        using search_alternative_sources_returns by blast
      let ?h2 = "snd (search_alternative_sources E t ?h1)"
      obtain found where f: "fst (try_alternatives E url alt_urls ?h2) = Inr found"
        using try_alternatives_returns by blast
      with assms \<open>\<not> truthy content\<close> True c t a have "found = Some (Some s, label)"
        by (cases found) (simp_all add: fetch_article_def fst_py_bind py_return_def)
      with f show ?thesis using try_alternatives_length by blast
    qed
  qed
qed

lemma scrape_url_mirror:
  "scrape_url mirror_env ''http://mirror.example/s'' h =
     (Inr (Some story_text), h @ [(''http://mirror.example/s'', 15)])"
  by (simp add: scrape_url_def make_soup_def py_defs mirror_env_def example_lxml_def
      scrape_story_soup)

lemma scrape_twin_soup:
  "main_content (remove_unwanted REMOVE_SELECTORS twin_soup) =
     Inr (Element ''article'' [] [Text ''ab'']) \<and>
   length (extract_text (Element ''article'' [] [Text ''ab''])) < 100"
  by (simp add: twin_soup_def tree_defs scraper_defs char_defs)

text \<open>
  Claim C2. A text that \<^verbatim>\<open>_scrape_url\<close> or \<^verbatim>\<open>fetch_article\<close> returns has at least 100
  characters, and an extraction of fewer than 100 characters is returned as \<open>None\<close>.
\<close>

theorem returned_text_has_100_characters:
  "(fst (scrape_url E url h) = Inr (Some s) \<longrightarrow> 100 \<le> length s) \<and>
   (fst (fetch_article E url title h) = Inr (Some s, label) \<longrightarrow> 100 \<le> length s) \<and>
   (main_content (remove_unwanted REMOVE_SELECTORS soup) = Inr content \<and>
      length (extract_text content) < 100 \<longrightarrow> scrape_soup soup = Inr None)"
  using scrape_url_length fetch_article_length
  by (auto simp: scrape_soup_def)

theorem returned_text_has_100_characters_witness:
  "fst (scrape_url mirror_env ''http://mirror.example/s'' []) = Inr (Some story_text) \<and>
   fst (fetch_article mirror_env ''http://mirror.example/s'' None []) =
     Inr (Some story_text, ''original'') \<and>
   100 \<le> length story_text \<and>
   length (extract_text (Element ''article'' [] [Text ''ab''])) < 100 \<and>
   scrape_soup twin_soup = Inr None"
proof -
  note t = returned_text_has_100_characters [of mirror_env "''http://mirror.example/s''" "[]"
      story_text None "''original''" twin_soup "Element ''article'' [] [Text ''ab'']"]
  have a: "fst (scrape_url mirror_env ''http://mirror.example/s'' []) = Inr (Some story_text)"
    by (simp add: scrape_url_mirror)
  have b: "fst (fetch_article mirror_env ''http://mirror.example/s'' None []) =
     Inr (Some story_text, ''original'')"
    by (simp add: fetch_article_def scrape_url_mirror py_bind_def py_return_def truthy_def
        story_text_def)
  have l: "100 \<le> length story_text"
    using t [THEN conjunct1] a by (rule mp)
  have l': "100 \<le> length story_text"
    using t [THEN conjunct2, THEN conjunct1] b by (rule mp)
  have n: "scrape_soup twin_soup = Inr None"
    using t [THEN conjunct2, THEN conjunct2] scrape_twin_soup by (rule mp)
  show ?thesis
    by (intro conjI a b l n scrape_twin_soup [THEN conjunct2])
qed

subsection \<open>Empty title, empty address\<close>

lemma snd_scrape_url: "snd (scrape_url E url h) = (if url = [] then h else h @ [(url, 15)])"
  by (auto simp: scrape_url_def py_defs make_soup_def split: prod.splits sum.splits)

text \<open>
  Claim C10. An empty title is an absent title. When the first attempt fails and the
  title is absent, the result is no text with the label \<^verbatim>\<open>failed\<close>, and the only request
  made is the one of the first attempt: no search. An empty address fails at once with
  no request, and with a title the method goes on with the search from there.
\<close>

theorem empty_title_and_empty_url:
  "fetch_article E url (Some []) h = fetch_article E url None h \<and>
   (fst (scrape_url E url h) = Inr None \<longrightarrow>
      fetch_article E url None h =
        (Inr (None, ''failed''), if url = [] then h else h @ [(url, 15)])) \<and>
   scrape_url E [] h = (Inr None, h) \<and>
   (t \<noteq> [] \<longrightarrow>
      fetch_article E [] (Some t) h =
        py_bind (search_alternative_sources E t) (\<lambda>alt_urls.
        py_bind (try_alternatives E [] alt_urls) (\<lambda>found.
          py_return (case found of Some result \<Rightarrow> result | None \<Rightarrow> (None, ''failed'')))) h)"
proof (intro conjI impI)
  show "fetch_article E url (Some []) h = fetch_article E url None h"
    by (simp add: fetch_article_def truthy_def)
  show "scrape_url E [] h = (Inr None, h)"
    by (simp add: scrape_url_def py_return_def)
next
  assume "fst (scrape_url E url h) = Inr None"
  moreover have "snd (scrape_url E url h) = (if url = [] then h else h @ [(url, 15)])"
    by (rule snd_scrape_url)
  ultimately have "scrape_url E url h = (Inr None, if url = [] then h else h @ [(url, 15)])"
    by (cases "scrape_url E url h") simp
  then show "fetch_article E url None h =
      (Inr (None, ''failed''), if url = [] then h else h @ [(url, 15)])"
    by (simp add: fetch_article_def py_bind_def py_return_def truthy_def)
next
  assume "t \<noteq> []"
  then show "fetch_article E [] (Some t) h =
        py_bind (search_alternative_sources E t) (\<lambda>alt_urls.
        py_bind (try_alternatives E [] alt_urls) (\<lambda>found.
          py_return (case found of Some result \<Rightarrow> result | None \<Rightarrow> (None, ''failed'')))) h"
    by (auto simp: fetch_article_def scrape_url_def py_bind_def py_return_def truthy_def
        split: prod.splits sum.splits option.splits)
qed

theorem empty_title_and_empty_url_witness:
  "fetch_article example_env ''https://example.org/a'' (Some []) [] =
     (Inr (None, ''failed''), [(''https://example.org/a'', 15)]) \<and>
   fetch_article example_env [] (Some ''Budget vote!'') [] =
     (Inr (Some story_text, ''alternative: aexample.com''),
      [(''https://html.duckduckgo.com/html/?q=Budget%20vote%20news'', 10),
       (''https://example.org/a'', 15),
       (''https://awww.example.com/story'', 15)])"
  using empty_title_and_empty_url [of example_env "''https://example.org/a''" "[]" "''Budget vote!''"]
    empty_title_and_empty_url [of example_env "[]" "[]" "''Budget vote!''"]
  by (simp add: scrape_url_article search_budget_vote scrape_url_story get_domain_story
      py_bind_def py_return_def truthy_def story_text_def)

subsection \<open>The search query\<close>

lemma re_sub_class_filter: "re_sub_class cls [] s = filter (\<lambda>c. \<not> cls c) s"
  by (induction s) (simp_all add: re_sub_class_def)

text \<open>
  Claim C5, amended. The query is made of the title's word characters (alphanumeric
  characters and the underscore) and white-space characters, in their order, cut after
  100 characters, with \<^verbatim>\<open> news\<close> appended after the cut. The underscore is punctuation
  and is kept: as the claim is written, with all punctuation stripped, it fails on the
  title \<^verbatim>\<open>a_b\<close>.
\<close>

theorem query_keeps_word_characters_and_spaces:
  "full_query title =
     take 100 (filter (\<lambda>c. is_alnum c \<or> c = CHR ''_'' \<or> is_space c) title) @ '' news'' \<and>
   length (search_query title) \<le> 100"
  by (simp add: full_query_def search_query_def re_sub_class_filter re_w_def re_s_def disj_assoc)

theorem query_keeps_word_characters_and_spaces_witness:
  "full_query ''Budget_vote: 50% up!'' = ''Budget_vote 50 up news''"
  using query_keeps_word_characters_and_spaces [of "''Budget_vote: 50% up!''"]
  by (simp add: is_alnum_def is_space_def)

theorem query_keeps_underscore_counterexample:
  "full_query ''a_b'' = ''a_b news'' \<and> spec_query ''a_b'' = ''ab news'' \<and>
   full_query ''a_b'' \<noteq> spec_query ''a_b''"
  by (simp add: full_query_def search_query_def re_sub_class_def spec_query_def char_defs)

subsection \<open>The choice of the content container\<close>

lemma foldl_max_first:
  fixes key :: "'a \<Rightarrow> nat"
  defines "step \<equiv> (\<lambda>best y. if key best < key y then y else best)"
  shows "\<exists>before after. x # xs = before @ foldl step x xs # after \<and>
           (\<forall>e \<in> set before. key e < key (foldl step x xs)) \<and>
           (\<forall>e \<in> set after. key e \<le> key (foldl step x xs))"
proof (induction xs rule: rev_induct)
  case Nil
  have "[x] = [] @ x # []" by simp
  then show ?case by force
next
  case (snoc y ys)
  let ?m = "foldl step x ys"
  from snoc obtain before after where d: "x # ys = before @ ?m # after"
    and b: "\<forall>e \<in> set before. key e < key ?m" and a: "\<forall>e \<in> set after. key e \<le> key ?m"
    by blast
  show ?case
  proof (cases "key ?m < key y")
    case True
    then have m: "foldl step x (ys @ [y]) = y" by (simp add: step_def)
    have "x # ys @ [y] = (before @ ?m # after) @ y # []" using d by simp
    moreover have "\<forall>e \<in> set (before @ ?m # after). key e < key y"
      using a b True by fastforce
    ultimately show ?thesis unfolding m by (metis empty_iff list.set(1))
  next
    case False
    then have m: "foldl step x (ys @ [y]) = ?m" by (simp add: step_def)
    have "x # ys @ [y] = before @ ?m # (after @ [y])" using d by simp
    moreover have "\<forall>e \<in> set (after @ [y]). key e \<le> key ?m"
      using a False by auto
    ultimately show ?thesis unfolding m using b by blast
  qed
qed

lemma py_max_first:
  assumes "elements \<noteq> []"
  shows "\<exists>content before after. py_max key elements = Inr content \<and>
           elements = before @ content # after \<and>
           (\<forall>e \<in> set before. key e < key content) \<and>
           (\<forall>e \<in> set after. key e \<le> key content)"
proof -
  from assms obtain x xs where "elements = x # xs" by (cases elements) auto
  then show ?thesis using foldl_max_first [of x xs key] by simp
qed

lemma find_content_cases:
  "(find_content sels soup = Inr None \<and> (\<forall>s \<in> set sels. select s soup = [])) \<or>
   (\<exists>skipped sel rest content before after.
      find_content sels soup = Inr (Some content) \<and>
      sels = skipped @ sel # rest \<and>
      (\<forall>s \<in> set skipped. select s soup = []) \<and>
      select sel soup = before @ content # after \<and>
      (\<forall>e \<in> set before. length (get_text e) < length (get_text content)) \<and>
      (\<forall>e \<in> set after. length (get_text e) \<le> length (get_text content)))"
proof (induction sels)
  case Nil
  show ?case by simp
next
  case (Cons sel sels)
  show ?case
  proof (cases "select sel soup = []")
    case True
    from Cons show ?thesis
    proof
      assume "find_content sels soup = Inr None \<and> (\<forall>s \<in> set sels. select s soup = [])"
      with True show ?thesis by simp
    next
      assume "\<exists>skipped sel rest content before after.
        find_content sels soup = Inr (Some content) \<and>
        sels = skipped @ sel # rest \<and>
        (\<forall>s \<in> set skipped. select s soup = []) \<and>
        select sel soup = before @ content # after \<and>
        (\<forall>e \<in> set before. length (get_text e) < length (get_text content)) \<and>
        (\<forall>e \<in> set after. length (get_text e) \<le> length (get_text content))"
      then obtain skipped sel' rest content before after where
        f: "find_content sels soup = Inr (Some content)" and
        s: "sels = skipped @ sel' # rest" and
        k: "\<forall>s \<in> set skipped. select s soup = []" and
        m: "select sel' soup = before @ content # after"
           "\<forall>e \<in> set before. length (get_text e) < length (get_text content)"
           "\<forall>e \<in> set after. length (get_text e) \<le> length (get_text content)"
        by blast
      have "find_content (sel # sels) soup = Inr (Some content)" using True f by simp
      moreover have "sel # sels = (sel # skipped) @ sel' # rest" using s by simp
      moreover have "\<forall>s \<in> set (sel # skipped). select s soup = []" using True k by simp
      ultimately show ?thesis using m by blast
    qed
  next
    case False
    then obtain content before after where
      p: "py_max (\<lambda>x. length (get_text x)) (select sel soup) = Inr content" and
      m: "select sel soup = before @ content # after"
         "\<forall>e \<in> set before. length (get_text e) < length (get_text content)"
         "\<forall>e \<in> set after. length (get_text e) \<le> length (get_text content)"
      using py_max_first [of "select sel soup" "\<lambda>x. length (get_text x)"] by blast
    have "find_content (sel # sels) soup = Inr (Some content)" using False p by simp
    moreover have "sel # sels = [] @ sel # sels" by simp
    moreover have "\<forall>s \<in> set []. select s soup = []" by simp
    ultimately show ?thesis using m by blast
  qed
qed

text \<open>
  Claim C3, amended. On every document the choice returns an element. Either some
  selector of \<open>CONTENT_SELECTORS\<close> matches: then the selectors before the first such one
  match nothing, and the element chosen is among the elements this selector matches,
  every match before it has a strictly shorter text and no match after it has a longer
  one (among matches of the greatest text length the first in document order is chosen).
  Or no selector matches: then the choice is the body, or the whole document when it has
  no body. As the claim is written, with a strictly greatest text length, it fails when
  two matches tie.
\<close>

theorem main_content_selection:
  "\<exists>content. main_content soup = Inr content \<and>
     ((\<exists>skipped sel rest before after.
         CONTENT_SELECTORS = skipped @ sel # rest \<and>
         (\<forall>s \<in> set skipped. select s soup = []) \<and>
         select sel soup = before @ content # after \<and>
         (\<forall>e \<in> set before. length (get_text e) < length (get_text content)) \<and>
         (\<forall>e \<in> set after. length (get_text e) \<le> length (get_text content))) \<or>
      ((\<forall>s \<in> set CONTENT_SELECTORS. select s soup = []) \<and>
       content = (case body soup of Some b \<Rightarrow> b | None \<Rightarrow> soup)))"
  using find_content_cases [of CONTENT_SELECTORS soup]
proof
  assume "find_content CONTENT_SELECTORS soup = Inr None \<and>
    (\<forall>s \<in> set CONTENT_SELECTORS. select s soup = [])"
  then show ?thesis by (auto simp: main_content_def split: option.splits)
next
  assume "\<exists>skipped sel rest content before after.
      find_content CONTENT_SELECTORS soup = Inr (Some content) \<and>
      CONTENT_SELECTORS = skipped @ sel # rest \<and>
      (\<forall>s \<in> set skipped. select s soup = []) \<and>
      select sel soup = before @ content # after \<and>
      (\<forall>e \<in> set before. length (get_text e) < length (get_text content)) \<and>
      (\<forall>e \<in> set after. length (get_text e) \<le> length (get_text content))"
  then obtain skipped sel rest content before after where
    "find_content CONTENT_SELECTORS soup = Inr (Some content)"
    "CONTENT_SELECTORS = skipped @ sel # rest"
    "\<forall>s \<in> set skipped. select s soup = []"
    "select sel soup = before @ content # after"
    "\<forall>e \<in> set before. length (get_text e) < length (get_text content)"
    "\<forall>e \<in> set after. length (get_text e) \<le> length (get_text content)"
    by blast
  moreover from this have "main_content soup = Inr content" by (simp add: main_content_def)
  ultimately show ?thesis by blast
qed

theorem main_content_selection_witness:
  "main_content story_soup =
     Inr (Element ''article'' []
            [Element ''p'' [] [Text story_text],
             Element ''p'' [(''class'', ''more'')] [Text '' Read more '']])"
proof -
  have e: "main_content story_soup =
     Inr (Element ''article'' []
            [Element ''p'' [] [Text story_text],
             Element ''p'' [(''class'', ''more'')] [Text '' Read more '']])"
    by (simp add: story_soup_def tree_defs scraper_defs story_text_def)
  from main_content_selection [of story_soup]
  obtain content where "main_content story_soup = Inr content" by blast
  with e show ?thesis by simp
qed

theorem main_content_tie_counterexample:
  "main_content twin_soup = Inr (Element ''article'' [] [Text ''ab'']) \<and>
   select (Tag ''article'') twin_soup =
     [Element ''article'' [] [Text ''ab''], Element ''article'' [] [Text ''cd'']] \<and>
   Element ''article'' [] [Text ''cd''] \<noteq> Element ''article'' [] [Text ''ab''] \<and>
   \<not> length (get_text (Element ''article'' [] [Text ''cd'']))
       < length (get_text (Element ''article'' [] [Text ''ab'']))"
  by (simp add: twin_soup_def tree_defs scraper_defs)

subsection \<open>The filter on the search results\<close>

lemma startswith_iff: "startswith s p \<longleftrightarrow> (\<exists>rest. s = p @ rest)"
proof
  assume "startswith s p"
  then have "s = p @ drop (length p) s"
    unfolding startswith_def by (metis append_take_drop_id)
  then show "\<exists>rest. s = p @ rest" ..
next
  assume "\<exists>rest. s = p @ rest"
  then show "startswith s p" by (auto simp: startswith_def)
qed

lemma py_in_iff: "py_in p s \<longleftrightarrow> (\<exists>before after. s = before @ p @ after)"
proof (induction s)
  case Nil
  show ?case by auto
next
  case (Cons c cs)
  show ?case
  proof
    assume "py_in p (c # cs)"
    then consider "startswith (c # cs) p" | "py_in p cs" by auto
    then show "\<exists>before after. c # cs = before @ p @ after"
    proof cases
      case 1
      then obtain rest where "c # cs = p @ rest" using startswith_iff by blast
      then have "c # cs = [] @ p @ rest" by simp
      then show ?thesis by blast
    next
      case 2
      with Cons obtain before after where "cs = before @ p @ after" by blast
      then have "c # cs = (c # before) @ p @ after" by simp
      then show ?thesis by blast
    qed
  next
    assume "\<exists>before after. c # cs = before @ p @ after"
    then obtain before after where d: "c # cs = before @ p @ after" by blast
    show "py_in p (c # cs)"
    proof (cases before)
      case Nil
      with d have "startswith (c # cs) p" using startswith_iff by auto
      then show ?thesis by simp
    next
      case (Cons b bs)
      with d have "cs = bs @ p @ after" by simp
      then have "py_in p cs" using Cons.IH by blast
      then show ?thesis by simp
    qed
  qed
qed

lemma py_in_part:
  assumes "py_in p part"
  shows "py_in p (before @ part @ after)"
proof -
  from assms obtain a b where "part = a @ p @ b" using py_in_iff by blast
  then have "before @ part @ after = (before @ a) @ p @ (b @ after)" by simp
  then show ?thesis using py_in_iff by blast
qed

lemma lower_skip_patterns: "pattern \<in> set skip_patterns \<Longrightarrow> lower pattern = pattern"
  by (auto simp: skip_patterns_def char_defs)

lemma py_in_lower:
  assumes "py_in p s" "lower p = p"
  shows "py_in p (lower s)"
proof -
  from assms(1) obtain a b where "s = a @ p @ b" using py_in_iff by blast
  then have "lower s = lower a @ p @ lower b" using assms(2) by (simp add: lower_def)
  then show ?thesis using py_in_iff by blast
qed

lemma is_news_url_part:
  assumes "is_news_url u" "pattern \<in> set skip_patterns" "u = before @ part @ after"
  shows "\<not> py_in pattern (lower part) \<and> \<not> py_in pattern part"
proof -
  from assms(1,2) have n: "\<not> py_in pattern (lower u)" by (auto simp: is_news_url_def)
  have "lower u = lower before @ lower part @ lower after"
    using assms(3) by (simp add: lower_def)
  with n have 1: "\<not> py_in pattern (lower part)" using py_in_part by metis
  moreover have "\<not> py_in pattern part"
    using 1 py_in_lower lower_skip_patterns assms(2) by blast
  ultimately show ?thesis by simp
qed

lemma link_urls_length: "length (link_urls E link) \<le> 1"
  by (simp add: link_urls_def Let_def split: option.splits)

lemma link_urls_news: "u \<in> set (link_urls E link) \<Longrightarrow> is_news_url u"
  by (auto simp: link_urls_def Let_def split: option.splits if_splits)

lemma collect_urls_take:
  "length urls < 5 \<Longrightarrow>
   collect_urls E links urls = take 5 (urls @ concat (map (link_urls E) links))"
proof (induction links arbitrary: urls)
  case Nil
  then show ?case by simp
next
  case (Cons link links)
  let ?urls' = "urls @ link_urls E link"
  have le: "length ?urls' \<le> 5" using Cons.prems link_urls_length [of E link] by simp
  show ?case
  proof (cases "5 \<le> length ?urls'")
    case True
    with le have "length ?urls' = 5" by simp
    then have "take 5 (?urls' @ concat (map (link_urls E) links)) = ?urls'" by simp
    with True show ?thesis by simp
  next
    case False
    then have "collect_urls E links ?urls' = take 5 (?urls' @ concat (map (link_urls E) links))"
      using Cons.IH by simp
    with False show ?thesis by simp
  qed
qed

lemma collect_urls_Nil:
  "collect_urls E links [] = take 5 (concat (map (link_urls E) links))"
  using collect_urls_take [of "[]" E links] by simp

lemma collect_urls_news:
  assumes "u \<in> set (collect_urls E links [])"
  shows "\<exists>link \<in> set links. u \<in> set (link_urls E link)"
proof -
  from assms have "u \<in> set (concat (map (link_urls E) links))"
    unfolding collect_urls_Nil by (rule in_set_takeD)
  then show ?thesis by auto
qed

lemma search_alternative_sources_cases:
  assumes "fst (search_alternative_sources E title h) = Inr urls"
  shows "urls = [] \<or> (\<exists>links. urls = collect_urls E links [])"
  using assms
  by (auto simp: search_alternative_sources_def py_defs split: prod.splits sum.splits if_splits)

text \<open>
  Claim C6. No address that \<^verbatim>\<open>_search_alternative_sources\<close> returns has a part (its
  host, its path, or any other) that contains one of the patterns of \<open>skip_patterns\<close>,
  the eight domains and the four path segments, whether the part is read as it is or in
  lower case.
\<close>

theorem search_results_pass_the_denylist:
  assumes "fst (search_alternative_sources E title h) = Inr urls"
    and "u \<in> set urls"
    and "pattern \<in> set skip_patterns"
    and "u = before @ part @ after"
  shows "\<not> py_in pattern (lower part) \<and> \<not> py_in pattern part"
proof -
  from assms(1,2) obtain links where "u \<in> set (collect_urls E links [])"
    using search_alternative_sources_cases by fastforce
  then have "is_news_url u" using collect_urls_news link_urls_news by blast
  then show ?thesis using assms(3,4) by (rule is_news_url_part)
qed

theorem search_results_pass_the_denylist_witness:
  "fst (search_alternative_sources example_env ''Budget vote!'' []) =
     Inr [''https://example.org/a'', ''https://awww.example.com/story''] \<and>
   ''https://awww.example.com/story'' = ''https://'' @ ''awww.example.com'' @ ''/story'' \<and>
   \<not> py_in ''youtube.com'' (lower ''awww.example.com'') \<and>
   \<not> py_in ''youtube.com'' ''awww.example.com''"
proof -
  have 1: "fst (search_alternative_sources example_env ''Budget vote!'' []) =
     Inr [''https://example.org/a'', ''https://awww.example.com/story'']"
    by (simp add: search_budget_vote)
  have 2: "''https://awww.example.com/story'' \<in>
      set [''https://example.org/a'', ''https://awww.example.com/story'']"
    by simp
  have 3: "''youtube.com'' \<in> set skip_patterns"
    by (simp add: skip_patterns_def)
  have 4: "''https://awww.example.com/story'' = ''https://'' @ ''awww.example.com'' @ ''/story''"
    by simp
  note r = search_results_pass_the_denylist [OF 1 2 3 4]
  show ?thesis
    by (intro conjI 1 4 r [THEN conjunct1] r [THEN conjunct2])
qed

subsection \<open>The redirect parameter\<close>




















subsection \<open>At most five candidates\<close>

lemma length_collect_urls: "length (collect_urls E links []) \<le> 5"
  by (simp add: collect_urls_Nil)

text \<open>
  Claim C8. \<^verbatim>\<open>_search_alternative_sources\<close> always returns a list, of at most five
  addresses; the loop over the links returns the first five of the addresses that the
  links add, in order; a failure of the encoding, of the request, of the status check or
  of the tree builder gives the empty list; and with no failure the result is the first
  five addresses added by the links \<^verbatim>\<open>a.result__a\<close> of the page.
\<close>

theorem search_returns_at_most_five:
  "(\<exists>urls. fst (search_alternative_sources E title h) = Inr urls \<and> length urls \<le> 5) \<and>
   collect_urls E links [] = take 5 (concat (map (link_urls E) links)) \<and>
   (quote E (full_query title) = Inl e1 \<longrightarrow>
      fst (search_alternative_sources E title h) = Inr []) \<and>
   (quote E (full_query title) = Inr q \<and> session_get E h (search_url q) 10 = Inl e2 \<longrightarrow>
      fst (search_alternative_sources E title h) = Inr []) \<and>
   (quote E (full_query title) = Inr q \<and> session_get E h (search_url q) 10 = Inr r \<and>
    raise_for_status r = Inl e3 \<longrightarrow>
      fst (search_alternative_sources E title h) = Inr []) \<and>
   (quote E (full_query title) = Inr q \<and> session_get E h (search_url q) 10 = Inr r \<and>
    lxml E (resp_text r) = Inl e4 \<longrightarrow>
      fst (search_alternative_sources E title h) = Inr []) \<and>
   (quote E (full_query title) = Inr q \<and> session_get E h (search_url q) 10 = Inr r \<and>
    raise_for_status r = Inr () \<and> lxml E (resp_text r) = Inr soup \<longrightarrow>
      fst (search_alternative_sources E title h) =
        Inr (take 5 (concat (map (link_urls E)
                 (select (Both (Tag ''a'') (Class ''result__a'')) soup)))))"
proof (intro conjI impI)
  obtain urls where u: "fst (search_alternative_sources E title h) = Inr urls"
    using search_alternative_sources_returns by blast
  then have "urls = [] \<or> (\<exists>links. urls = collect_urls E links [])"
    by (rule search_alternative_sources_cases)
  then have "length urls \<le> 5" using length_collect_urls by auto
  with u show "\<exists>urls. fst (search_alternative_sources E title h) = Inr urls \<and> length urls \<le> 5"
    by blast
  show "collect_urls E links [] = take 5 (concat (map (link_urls E) links))"
    by (rule collect_urls_Nil)
next
  assume "quote E (full_query title) = Inl e1"
  then show "fst (search_alternative_sources E title h) = Inr []"
    by (simp add: search_alternative_sources_def py_defs)
next
  assume "quote E (full_query title) = Inr q \<and> session_get E h (search_url q) 10 = Inl e2"
  then show "fst (search_alternative_sources E title h) = Inr []"
    by (simp add: search_alternative_sources_def py_defs)
next
  assume "quote E (full_query title) = Inr q \<and> session_get E h (search_url q) 10 = Inr r \<and>
    raise_for_status r = Inl e3"
  then show "fst (search_alternative_sources E title h) = Inr []"
    by (simp add: search_alternative_sources_def py_return_def py_lift_def py_bind_def
        py_try_def get_def)
next
  assume "quote E (full_query title) = Inr q \<and> session_get E h (search_url q) 10 = Inr r \<and>
    lxml E (resp_text r) = Inl e4"
  then show "fst (search_alternative_sources E title h) = Inr []"
    by (cases "raise_for_status r")
      (simp_all add: search_alternative_sources_def py_return_def py_lift_def py_bind_def
        py_try_def get_def)
next
  assume "quote E (full_query title) = Inr q \<and> session_get E h (search_url q) 10 = Inr r \<and>
    raise_for_status r = Inr () \<and> lxml E (resp_text r) = Inr soup"
  then show "fst (search_alternative_sources E title h) =
        Inr (take 5 (concat (map (link_urls E)
                 (select (Both (Tag ''a'') (Class ''result__a'')) soup))))"
    by (simp add: search_alternative_sources_def py_return_def py_lift_def py_bind_def
        py_try_def get_def collect_urls_Nil)
qed

lemma link_urls_plain_link: "link_urls E plain_link = [''https://example.net/n'']"
  by (simp add: plain_link_def link_urls_def startswith_def is_news_url_def
      skip_patterns_def char_defs)

lemma full_query_budget_vote: "full_query ''Budget vote!'' = ''Budget vote news''"
  by (simp add: full_query_def search_query_def re_sub_class_def char_defs)

lemma quote_budget_vote:
  "quote example_env (full_query ''Budget vote!'') = Inr ''Budget%20vote%20news''"
  by (simp add: full_query_budget_vote example_env_def example_quote_def)

lemma quote_canned:
  "quote (canned_env status markup) (full_query ''Budget vote!'') = Inr ''Budget%20vote%20news''"
  by (simp add: full_query_budget_vote canned_env_def example_env_def example_quote_def)

theorem search_returns_at_most_five_witness:
  "collect_urls mirror_env
     [plain_link, plain_link, plain_link, plain_link, plain_link, plain_link, plain_link] [] =
     [''https://example.net/n'', ''https://example.net/n'', ''https://example.net/n'',
      ''https://example.net/n'', ''https://example.net/n''] \<and>
   fst (search_alternative_sources mirror_env ''Budget vote!'' []) = Inr [] \<and>
   fst (search_alternative_sources example_env ''Budget vote!'' [(''x'', 15)]) =
     Inr [''https://example.org/a'', ''https://awww.example.com/story''] \<and>
   fst (search_alternative_sources (canned_env 200 ''results page'')
          ''Budget vote!'' []) =
     Inr [''https://example.org/a'', ''https://awww.example.com/story''] \<and>
   fst (search_alternative_sources (canned_env 503 ''results page'') ''Budget vote!'' []) = Inr [] \<and>
   fst (search_alternative_sources (canned_env 200 ''no markup'') ''Budget vote!'' []) = Inr [] \<and>
   fst (search_alternative_sources
          (example_env\<lparr>session_get := (\<lambda>h url timeout. Inl RequestException)\<rparr>)
          ''Budget vote!'' []) = Inr []"
proof -
  let ?links = "[plain_link, plain_link, plain_link, plain_link, plain_link, plain_link, plain_link]"
  let ?q = "''Budget%20vote%20news''"
  let ?a = "select (Both (Tag ''a'') (Class ''result__a'')) results_soup"
  have c: "collect_urls mirror_env ?links [] =
     [''https://example.net/n'', ''https://example.net/n'', ''https://example.net/n'',
      ''https://example.net/n'', ''https://example.net/n'']"
    using search_returns_at_most_five [of mirror_env "''Budget vote!''" "[]" ?links,
        THEN conjunct2, THEN conjunct1]
    by (simp add: link_urls_plain_link)
  have "quote mirror_env (full_query ''Budget vote!'') = Inl UnicodeError"
    by (simp add: mirror_env_def)
  with search_returns_at_most_five [of mirror_env "''Budget vote!''" "[]" ?links UnicodeError,
      THEN conjunct2, THEN conjunct2, THEN conjunct1]
  have q: "fst (search_alternative_sources mirror_env ''Budget vote!'' []) = Inr []"
    by (rule mp)
  have s: "fst (search_alternative_sources example_env ''Budget vote!'' [(''x'', 15)]) =
     Inr [''https://example.org/a'', ''https://awww.example.com/story'']"
    by (simp add: search_budget_vote)
  have links: "take 5 (concat (map (link_urls (canned_env 200 ''results page'')) ?a)) =
      [''https://example.org/a'', ''https://awww.example.com/story'']"
    by (simp add: canned_env_def char_defs tree_defs scraper_defs example_defs)
  have "quote (canned_env 200 ''results page'') (full_query ''Budget vote!'') = Inr ?q \<and>
      session_get (canned_env 200 ''results page'') [] (search_url ?q) 10 =
        Inr \<lparr>status_code = 200, resp_text = ''results page''\<rparr> \<and>
      raise_for_status \<lparr>status_code = 200, resp_text = ''results page''\<rparr> = Inr () \<and>
      lxml (canned_env 200 ''results page'')
        (resp_text \<lparr>status_code = 200, resp_text = ''results page''\<rparr>) = Inr results_soup"
    by (simp add: quote_canned) (simp add: canned_env_def example_env_def example_lxml_def
        raise_for_status_def)
  with search_returns_at_most_five [of "canned_env 200 ''results page''" "''Budget vote!''" "[]"
      ?links UnicodeError ?q RequestException
      "\<lparr>status_code = 200, resp_text = ''results page''\<rparr>" HTTPError ParserError results_soup,
      THEN conjunct2, THEN conjunct2, THEN conjunct2, THEN conjunct2, THEN conjunct2,
      THEN conjunct2]
  have "fst (search_alternative_sources (canned_env 200 ''results page'') ''Budget vote!'' []) =
      Inr (take 5 (concat (map (link_urls (canned_env 200 ''results page'')) ?a)))"
    by (rule mp)
  then have ok: "fst (search_alternative_sources (canned_env 200 ''results page'')
        ''Budget vote!'' []) = Inr [''https://example.org/a'', ''https://awww.example.com/story'']"
    unfolding links .
  have "quote (canned_env 503 ''results page'') (full_query ''Budget vote!'') = Inr ?q \<and>
      session_get (canned_env 503 ''results page'') [] (search_url ?q) 10 =
        Inr \<lparr>status_code = 503, resp_text = ''results page''\<rparr> \<and>
      raise_for_status \<lparr>status_code = 503, resp_text = ''results page''\<rparr> = Inl HTTPError"
    by (simp add: quote_canned) (simp add: canned_env_def raise_for_status_def)
  with search_returns_at_most_five [of "canned_env 503 ''results page''" "''Budget vote!''" "[]"
      ?links UnicodeError ?q RequestException
      "\<lparr>status_code = 503, resp_text = ''results page''\<rparr>" HTTPError,
      THEN conjunct2, THEN conjunct2, THEN conjunct2, THEN conjunct2, THEN conjunct1]
  have st: "fst (search_alternative_sources (canned_env 503 ''results page'') ''Budget vote!'' []) =
      Inr []"
    by (rule mp)
  have "quote (canned_env 200 ''no markup'') (full_query ''Budget vote!'') = Inr ?q \<and>
      session_get (canned_env 200 ''no markup'') [] (search_url ?q) 10 =
        Inr \<lparr>status_code = 200, resp_text = ''no markup''\<rparr> \<and>
      lxml (canned_env 200 ''no markup'')
        (resp_text \<lparr>status_code = 200, resp_text = ''no markup''\<rparr>) = Inl ParserError"
    by (simp add: quote_canned) (simp add: canned_env_def example_env_def example_lxml_def)
  with search_returns_at_most_five [of "canned_env 200 ''no markup''" "''Budget vote!''" "[]"
      ?links UnicodeError ?q RequestException
      "\<lparr>status_code = 200, resp_text = ''no markup''\<rparr>" HTTPError ParserError,
      THEN conjunct2, THEN conjunct2, THEN conjunct2, THEN conjunct2, THEN conjunct2,
      THEN conjunct1]
  have p: "fst (search_alternative_sources (canned_env 200 ''no markup'') ''Budget vote!'' []) =
      Inr []"
    by (rule mp)
  let ?down = "example_env\<lparr>session_get := (\<lambda>h url timeout. Inl RequestException)\<rparr>"
  have "quote ?down (full_query ''Budget vote!'') = Inr ?q \<and>
      session_get ?down [] (search_url ?q) 10 = Inl RequestException"
    by (simp add: full_query_budget_vote example_env_def example_quote_def)
  with search_returns_at_most_five [of ?down "''Budget vote!''" "[]"
      ?links UnicodeError ?q RequestException,
      THEN conjunct2, THEN conjunct2, THEN conjunct2, THEN conjunct1]
  have n: "fst (search_alternative_sources ?down ''Budget vote!'' []) = Inr []"
    by (rule mp)
  show ?thesis
    by (intro conjI c q s ok st p n)
qed

subsection \<open>The label of an alternative source\<close>

text \<open>
  The loop over the alternatives makes no request for the original address.
\<close>

lemma snd_try_alternatives:
  "\<exists>rs. snd (try_alternatives E url alt_urls h) = h @ rs \<and> url \<notin> fst ` set rs"
proof (induction alt_urls arbitrary: h)
  case Nil
  have "snd (try_alternatives E url [] h) = h @ [] \<and> url \<notin> fst ` set []"
    by (simp add: py_return_def)
  then show ?case by blast
next
  case (Cons alt_url alt_urls)
  show ?case
  proof (cases "alt_url = url")
    case True
    with Cons.IH [of h] show ?thesis by simp
  next
    case False
    let ?h1 = "snd (scrape_url E alt_url h)"
    have h1: "?h1 = h @ (if alt_url = [] then [] else [(alt_url, 15)])"
      by (simp add: snd_scrape_url)
    obtain content where c: "fst (scrape_url E alt_url h) = Inr content"
      using scrape_url_returns by blast
    show ?thesis
    proof (cases "truthy content")
      case True
      have "snd (get_domain E alt_url ?h1) = ?h1"
        by (auto simp: get_domain_def py_defs split: prod.splits sum.splits)
      moreover obtain domain where "fst (get_domain E alt_url ?h1) = Inr domain"
        using get_domain_returns by blast
      ultimately have "snd (try_alternatives E url (alt_url # alt_urls) h) = ?h1"
        using False c True by (simp add: snd_py_bind py_return_def)
      then have "snd (try_alternatives E url (alt_url # alt_urls) h) =
          h @ (if alt_url = [] then [] else [(alt_url, 15)]) \<and>
          url \<notin> fst ` set (if alt_url = [] then [] else [(alt_url, 15)])"
        using h1 False by auto
      then show ?thesis by blast
    next
      case nt: False
      obtain rs where "snd (try_alternatives E url alt_urls ?h1) = ?h1 @ rs"
        and r: "url \<notin> fst ` set rs"
        using Cons.IH by blast
      then have "snd (try_alternatives E url (alt_url # alt_urls) h) = ?h1 @ rs"
        using False c nt by (simp add: snd_py_bind)
      then have "snd (try_alternatives E url (alt_url # alt_urls) h) =
          h @ ((if alt_url = [] then [] else [(alt_url, 15)]) @ rs) \<and>
          url \<notin> fst ` set ((if alt_url = [] then [] else [(alt_url, 15)]) @ rs)"
        using h1 False r by auto
      then show ?thesis by blast
    qed
  qed
qed

text \<open>
  Claim C4. In the example the first attempt fails, the search finds the story at
  \<^verbatim>\<open>https://awww.example.com/story\<close>, and the label returned is
  \<^verbatim>\<open>alternative: aexample.com\<close>: \<^verbatim>\<open>_get_domain\<close> removes \<^verbatim>\<open>www.\<close> wherever it occurs
  in the network location \<^verbatim>\<open>awww.example.com\<close>, which has no leading \<^verbatim>\<open>www.\<close> to strip.
\<close>

theorem get_domain_removes_every_www:
  "fst (fetch_article example_env ''https://example.org/a'' (Some ''Budget vote!'') []) =
     Inr (Some story_text, ''alternative: aexample.com'') \<and>
   urlparse_netloc example_env ''https://awww.example.com/story'' = Inr ''awww.example.com'' \<and>
   strip_leading_www ''awww.example.com'' = ''awww.example.com''"
proof (intro conjI)
  show "fst (fetch_article example_env ''https://example.org/a'' (Some ''Budget vote!'') []) =
     Inr (Some story_text, ''alternative: aexample.com'')"
    by (simp add: fetch_article_def scrape_url_article search_budget_vote scrape_url_story
        get_domain_story py_bind_def py_return_def truthy_def story_text_def)
  show "urlparse_netloc example_env ''https://awww.example.com/story'' = Inr ''awww.example.com''"
    by (simp add: example_env_def example_netloc_def startswith_def)
  show "strip_leading_www ''awww.example.com'' = ''awww.example.com''"
    by (simp add: strip_leading_www_def startswith_def)
qed

end
